theory Spec2Isabelle
  imports Main
begin

section \<open>Decoded payloads\<close>

text \<open>
  The payload handed to \<^verbatim>\<open>_display_breach_results\<close> is what \<^verbatim>\<open>response.json()\<close> returns:
  \<^verbatim>\<open>None\<close>, a bool, an int, a float, a str, a list, or a dict with str keys. A dict keeps
  its insertion order, so it is an association list; a decoded dict has distinct keys, and
  lookup takes the entry of a key (\<open>map_of\<close>).

  A Python str is modelled as a \<open>string\<close>, each \<open>char\<close> read as the code point of the same
  number (0 to 255). A float is kept abstract: the program only asks a float for its truth
  value and for its text, so a float is the pair of these two observations.
\<close>

datatype pyfloat = PyFloat (float_nonzero: bool) (float_repr: string)

datatype json =
    JNull
  | JBool bool
  | JInt int
  | JFloat pyfloat
  | JStr string
  | JList "json list"
  | JDict "(string \<times> json) list"

datatype exn = TypeError | AttributeError | RecursionError | ValueError

fun is_str :: "json \<Rightarrow> bool" where
  "is_str (JStr s) = True"
| "is_str _ = False"

fun is_list :: "json \<Rightarrow> bool" where
  "is_list (JList xs) = True"
| "is_list _ = False"

fun is_dict :: "json \<Rightarrow> bool" where
  "is_dict (JDict m) = True"
| "is_dict _ = False"

text \<open>\<^verbatim>\<open>d.get(k)\<close>: the value stored under \<open>k\<close>, \<^verbatim>\<open>None\<close> when the key is missing.\<close>

definition dict_get :: "(string \<times> json) list \<Rightarrow> string \<Rightarrow> json" where
  "dict_get m k = (case map_of m k of None \<Rightarrow> JNull | Some v \<Rightarrow> v)"

text \<open>The truth value of an object, as \<^verbatim>\<open>or\<close> and \<^verbatim>\<open>if name:\<close> test it.\<close>

fun truthy :: "json \<Rightarrow> bool" where
  "truthy JNull = False"
| "truthy (JBool b) = b"
| "truthy (JInt i) = (i \<noteq> 0)"
| "truthy (JFloat f) = float_nonzero f"
| "truthy (JStr s) = (s \<noteq> [])"
| "truthy (JList xs) = (xs \<noteq> [])"
| "truthy (JDict m) = (m \<noteq> [])"

text \<open>\<^verbatim>\<open>a or b\<close> is \<open>a\<close> when \<open>a\<close> is true and \<open>b\<close> otherwise.\<close>

definition py_or :: "json \<Rightarrow> json \<Rightarrow> json" where
  "py_or a b = (if truthy a then a else b)"

section \<open>The text of an object: \<^verbatim>\<open>str\<close> and \<^verbatim>\<open>repr\<close>\<close>

definition digit_char :: "nat \<Rightarrow> char" where
  "digit_char n = ''0123456789abcdef'' ! (n mod 16)"

fun dec_nat :: "nat \<Rightarrow> string" where
  "dec_nat n = (if n < 10 then [digit_char n] else dec_nat (n div 10) @ [digit_char (n mod 10)])"

declare dec_nat.simps [simp del]

definition int_repr :: "int \<Rightarrow> string" where
  "int_repr i = (if i < 0 then CHR ''-'' # dec_nat (nat (- i)) else dec_nat (nat i))"

definition hex2 :: "nat \<Rightarrow> string" where
  "hex2 n = [digit_char (n div 16), digit_char (n mod 16)]"

text \<open>
  The quote \<^verbatim>\<open>repr\<close> puts around a str: a double quote when the text holds a single
  quote and no double quote, a single quote otherwise.
\<close>

definition repr_quote :: "string \<Rightarrow> char" where
  "repr_quote s =
     (if CHR 0x27 \<in> set s \<and> CHR 0x22 \<notin> set s then CHR 0x22 else CHR 0x27)"

text \<open>
  One character inside the quotes: the quote and the backslash are escaped, tab, newline
  and carriage return have their letter, the other control characters and the unprintable
  code points up to 255 (128 to 160, and 173) are written \<^verbatim>\<open>\xNN\<close>.
\<close>

definition repr_char :: "char \<Rightarrow> char \<Rightarrow> string" where
  "repr_char q c =
     (let n = (of_char c :: nat) in
      if c = q \<or> c = CHR 0x5C then [CHR 0x5C, c]
      else if n = 9 then [CHR 0x5C, CHR ''t'']
      else if n = 10 then [CHR 0x5C, CHR ''n'']
      else if n = 13 then [CHR 0x5C, CHR ''r'']
      else if n < 32 \<or> n = 127 then [CHR 0x5C, CHR ''x''] @ hex2 n
      else if n < 127 then [c]
      else if n \<le> 160 \<or> n = 173 then [CHR 0x5C, CHR ''x''] @ hex2 n
      else [c])"

definition str_repr :: "string \<Rightarrow> string" where
  "str_repr s = (let q = repr_quote s in [q] @ concat (map (repr_char q) s) @ [q])"

text \<open>\<^verbatim>\<open>', '.join(parts)\<close>.\<close>

fun join_comma :: "string list \<Rightarrow> string" where
  "join_comma [] = []"
| "join_comma [p] = p"
| "join_comma (p # q # ps) = p @ '', '' @ join_comma (q # ps)"

fun py_repr :: "json \<Rightarrow> string"
  and repr_items :: "json list \<Rightarrow> string list"
  and repr_pairs :: "(string \<times> json) list \<Rightarrow> string list" where
  "py_repr JNull = ''None''"
| "py_repr (JBool b) = (if b then ''True'' else ''False'')"
| "py_repr (JInt i) = int_repr i"
| "py_repr (JFloat f) = float_repr f"
| "py_repr (JStr s) = str_repr s"
| "py_repr (JList xs) = ''['' @ join_comma (repr_items xs) @ '']''"
| "py_repr (JDict m) = ''{'' @ join_comma (repr_pairs m) @ ''}''"
| "repr_items [] = []"
| "repr_items (x # xs) = py_repr x # repr_items xs"
| "repr_pairs [] = []"
| "repr_pairs ((k, v) # m) = (str_repr k @ '': '' @ py_repr v) # repr_pairs m"

text \<open>\<^verbatim>\<open>str(x)\<close>: a str is its own text, every other object prints as its \<^verbatim>\<open>repr\<close>.\<close>

fun py_str :: "json \<Rightarrow> string" where
  "py_str (JStr s) = s"
| "py_str x = py_repr x"

section \<open>\<^verbatim>\<open>_flatten_list\<close>\<close>

text \<open>
  The name of a dict found in a list: the chain
  \<^verbatim>\<open>item.get("breach") or item.get("name") or ... or item.get("title") or None\<close>.
\<close>

definition item_name :: "(string \<times> json) list \<Rightarrow> json" where
  "item_name item =
     py_or (dict_get item ''breach'')
    (py_or (dict_get item ''name'')
    (py_or (dict_get item ''domain'')
    (py_or (dict_get item ''site'')
    (py_or (dict_get item ''Name'')
    (py_or (dict_get item ''Breach'')
    (py_or (dict_get item ''title'') JNull))))))"

text \<open>
  \<open>flatten_list\<close> is \<^verbatim>\<open>_flatten_list\<close>; \<open>flatten_items\<close> is its loop over the items of a
  list and \<open>flatten_values\<close> its loop over the items of a dict. The result is the Python
  list \<^verbatim>\<open>result\<close>, a list of objects.
\<close>

fun flatten_list :: "json \<Rightarrow> json list"
  and flatten_items :: "json list \<Rightarrow> json list"
  and flatten_values :: "(string \<times> json) list \<Rightarrow> json list" where
  "flatten_list (JStr s) = [JStr s]"
| "flatten_list (JList xs) = flatten_items xs"
| "flatten_list (JDict m) = flatten_values m"
| "flatten_list JNull = []"
| "flatten_list (JBool b) = []"
| "flatten_list (JInt i) = []"
| "flatten_list (JFloat f) = []"
| "flatten_items [] = []"
| "flatten_items (item # rest) =
     (case item of
        JStr s \<Rightarrow> [item]
      | JList ys \<Rightarrow> flatten_list item
      | JDict d \<Rightarrow>
          (if truthy (item_name d) then [JStr (py_str (item_name d))]
           else [JStr (py_str item)])
      | JNull \<Rightarrow> []
      | _ \<Rightarrow> [JStr (py_str item)]) @ flatten_items rest"
| "flatten_values [] = []"
| "flatten_values ((key, v) # rest) =
     (case v of
        JList ys \<Rightarrow> flatten_list v
      | JStr s \<Rightarrow> [v]
      | _ \<Rightarrow> []) @ flatten_values rest"


definition max_str_digits :: nat where
  "max_str_digits = 4300"

definition int_digits :: "int \<Rightarrow> nat" where
  "int_digits i = length (dec_nat (nat \<bar>i\<bar>))"

text \<open>
  \<^verbatim>\<open>repr(x)\<close> with \<open>n\<close> levels free. The key of a dict entry is printed before its value
  and at the same level, so it raises only where the value would.
\<close>

fun bounded_repr :: "nat \<Rightarrow> json \<Rightarrow> exn + string"
  and bounded_repr_items :: "nat \<Rightarrow> json list \<Rightarrow> exn + string list"
  and bounded_repr_pairs :: "nat \<Rightarrow> (string \<times> json) list \<Rightarrow> exn + string list" where
  "bounded_repr 0 x = Inl RecursionError"
| "bounded_repr (Suc n) JNull = Inr ''None''"
| "bounded_repr (Suc n) (JBool b) = Inr (if b then ''True'' else ''False'')"
| "bounded_repr (Suc n) (JInt i) =
     (if max_str_digits < int_digits i then Inl ValueError else Inr (int_repr i))"
| "bounded_repr (Suc n) (JFloat f) = Inr (float_repr f)"
| "bounded_repr (Suc n) (JStr s) = Inr (str_repr s)"
| "bounded_repr (Suc n) (JList xs) =
     (case bounded_repr_items n xs of
        Inl e \<Rightarrow> Inl e
      | Inr ps \<Rightarrow> Inr (''['' @ join_comma ps @ '']''))"
| "bounded_repr (Suc n) (JDict m) =
     (case bounded_repr_pairs n m of
        Inl e \<Rightarrow> Inl e
      | Inr ps \<Rightarrow> Inr (''{'' @ join_comma ps @ ''}''))"
| "bounded_repr_items n [] = Inr []"
| "bounded_repr_items n (x # xs) =
     (case bounded_repr n x of
        Inl e \<Rightarrow> Inl e
      | Inr p \<Rightarrow>
          (case bounded_repr_items n xs of Inl e \<Rightarrow> Inl e | Inr ps \<Rightarrow> Inr (p # ps)))"
| "bounded_repr_pairs n [] = Inr []"
| "bounded_repr_pairs n ((k, v) # m) =
     (case bounded_repr n v of
        Inl e \<Rightarrow> Inl e
      | Inr p \<Rightarrow>
          (case bounded_repr_pairs n m of
             Inl e \<Rightarrow> Inl e
           | Inr ps \<Rightarrow> Inr ((str_repr k @ '': '' @ p) # ps)))"

text \<open>\<^verbatim>\<open>str(x)\<close> with \<open>n\<close> levels free: a str is returned as it is, without a call.\<close>

fun bounded_str :: "nat \<Rightarrow> json \<Rightarrow> exn + string" where
  "bounded_str n (JStr s) = Inr s"
| "bounded_str n x = bounded_repr n x"

text \<open>\<^verbatim>\<open>result.append(str(x))\<close>: the one-element contribution, or the exception of \<^verbatim>\<open>str\<close>.\<close>

fun appended :: "exn + string \<Rightarrow> exn + json list" where
  "appended (Inl e) = Inl e"
| "appended (Inr t) = Inr [JStr t]"

fun bounded_flatten :: "nat \<Rightarrow> json \<Rightarrow> exn + json list"
  and bounded_items :: "nat \<Rightarrow> json list \<Rightarrow> exn + json list"
  and bounded_values :: "nat \<Rightarrow> (string \<times> json) list \<Rightarrow> exn + json list" where
  "bounded_flatten 0 x = Inl RecursionError"
| "bounded_flatten (Suc n) (JStr s) = Inr [JStr s]"
| "bounded_flatten (Suc n) (JList xs) = bounded_items n xs"
| "bounded_flatten (Suc n) (JDict m) = bounded_values n m"
| "bounded_flatten (Suc n) JNull = Inr []"
| "bounded_flatten (Suc n) (JBool b) = Inr []"
| "bounded_flatten (Suc n) (JInt i) = Inr []"
| "bounded_flatten (Suc n) (JFloat f) = Inr []"
| "bounded_items n [] = Inr []"
| "bounded_items n (item # rest) =
     (case (case item of
              JStr s \<Rightarrow> Inr [item]
            | JList ys \<Rightarrow> bounded_flatten n item
            | JDict d \<Rightarrow>
                (if truthy (item_name d) then appended (bounded_str n (item_name d))
                 else appended (bounded_str n item))
            | JNull \<Rightarrow> Inr []
            | _ \<Rightarrow> appended (bounded_str n item)) of
        Inl e \<Rightarrow> Inl e
      | Inr r \<Rightarrow>
          (case bounded_items n rest of Inl e \<Rightarrow> Inl e | Inr rs \<Rightarrow> Inr (r @ rs)))"
| "bounded_values n [] = Inr []"
| "bounded_values n ((key, v) # rest) =
     (case (case v of
              JList ys \<Rightarrow> bounded_flatten n v
            | JStr s \<Rightarrow> Inr [v]
            | _ \<Rightarrow> Inr []) of
        Inl e \<Rightarrow> Inl e
      | Inr r \<Rightarrow>
          (case bounded_values n rest of Inl e \<Rightarrow> Inl e | Inr rs \<Rightarrow> Inr (r @ rs)))"

section \<open>The search for the breach data in \<^verbatim>\<open>_display_breach_results\<close>\<close>

definition possible_keys :: "string list" where
  "possible_keys =
     [''breaches'', ''Breaches'', ''BREACHES'',
      ''breaches_details'', ''BreachesDetails'',
      ''ExposedBreaches'', ''exposed_breaches'',
      ''data'', ''Data'', ''results'', ''Results'']"

text \<open>
  \<^verbatim>\<open>for key in keys: if key in data: breaches_data = data[key]; break\<close>, starting from
  \<^verbatim>\<open>breaches_data = None\<close>.
\<close>

fun probe_keys :: "(string \<times> json) list \<Rightarrow> string list \<Rightarrow> json" where
  "probe_keys m [] = JNull"
| "probe_keys m (key # keys) =
     (case map_of m key of Some v \<Rightarrow> v | None \<Rightarrow> probe_keys m keys)"

text \<open>The block under \<^verbatim>\<open>if "ExposedBreaches" in data\<close>.\<close>

definition exposed_probe :: "(string \<times> json) list \<Rightarrow> json" where
  "exposed_probe m =
     (case map_of m ''ExposedBreaches'' of
        None \<Rightarrow> JNull
      | Some exposed \<Rightarrow>
          (case exposed of
             JDict e \<Rightarrow> probe_keys e [''breaches_details'', ''breaches'', ''Breaches'']
           | JList ys \<Rightarrow> exposed
           | _ \<Rightarrow> JNull))"

text \<open>The last resort: the first value of the dict that is a list.\<close>

fun first_list :: "(string \<times> json) list \<Rightarrow> json" where
  "first_list [] = JNull"
| "first_list ((key, v) # rest) = (if is_list v then v else first_list rest)"

text \<open>\<^verbatim>\<open>key in data\<close> when \<open>data\<close> is a str: the key occurs in it as a substring.\<close>

fun starts_with :: "string \<Rightarrow> string \<Rightarrow> bool" where
  "starts_with [] s = True"
| "starts_with (k # ks) [] = False"
| "starts_with (k # ks) (c # cs) = (k = c \<and> starts_with ks cs)"

fun str_contains :: "string \<Rightarrow> string \<Rightarrow> bool" where
  "str_contains k [] = (k = [])"
| "str_contains k (c # cs) = (starts_with k (c # cs) \<or> str_contains k cs)"

text \<open>
  The value of the variable \<^verbatim>\<open>breaches_data\<close> when the search ends, \<open>JNull\<close> being the
  \<^verbatim>\<open>None\<close> it starts from, or the exception the search raises. A payload that is neither a
  list nor a dict raises: on a str, \<^verbatim>\<open>data[key]\<close> is a \<^verbatim>\<open>TypeError\<close> when a key occurs in
  it and \<^verbatim>\<open>data.items()\<close> an \<^verbatim>\<open>AttributeError\<close> otherwise; on any other scalar
  \<^verbatim>\<open>key in data\<close> is a \<^verbatim>\<open>TypeError\<close>.
\<close>

fun breaches_data :: "json \<Rightarrow> exn + json" where
  "breaches_data (JList xs) = Inr (JList xs)"
| "breaches_data (JDict m) =
     (let found = probe_keys m possible_keys;
          found = (if found = JNull then exposed_probe m else found);
          found = (if found = JNull then first_list m else found)
      in Inr found)"
| "breaches_data (JStr s) =
     (if list_ex (\<lambda>key. str_contains key s) possible_keys then Inl TypeError
      else Inl AttributeError)"
| "breaches_data x = Inl TypeError"

text \<open>
  \<^verbatim>\<open>breach_list\<close> after the \<^verbatim>\<open>try\<close> block: the flattened data, and the empty list it
  started as when nothing was found or an exception was caught.
\<close>

definition breach_list :: "json \<Rightarrow> json list" where
  "breach_list data =
     (case breaches_data data of
        Inl e \<Rightarrow> []
      | Inr found \<Rightarrow> (if found \<noteq> JNull then flatten_list found else []))"

definition breach_count :: "json \<Rightarrow> nat" where
  "breach_count data = length (breach_list data)"

section \<open>Notions of the specification\<close>

text \<open>The name fields of a record, in the order of the specification.\<close>

definition name_fields :: "string list" where
  "name_fields = [''breach'', ''name'', ''domain'', ''site'', ''Name'', ''Breach'', ''title'']"

text \<open>The first key of a list of keys that the mapping holds.\<close>

definition first_present :: "(string \<times> json) list \<Rightarrow> string list \<Rightarrow> string option" where
  "first_present m keys = find (\<lambda>k. map_of m k \<noteq> None) keys"



text \<open>The nesting depth of a tree: a scalar has depth 0, a container one more than its deepest member.\<close>

fun nesting :: "json \<Rightarrow> nat"
  and nesting_items :: "json list \<Rightarrow> nat"
  and nesting_values :: "(string \<times> json) list \<Rightarrow> nat" where
  "nesting (JList xs) = Suc (nesting_items xs)"
| "nesting (JDict m) = Suc (nesting_values m)"
| "nesting JNull = 0"
| "nesting (JBool b) = 0"
| "nesting (JInt i) = 0"
| "nesting (JFloat f) = 0"
| "nesting (JStr s) = 0"
| "nesting_items [] = 0"
| "nesting_items (x # xs) = max (nesting x) (nesting_items xs)"
| "nesting_values [] = 0"
| "nesting_values ((k, v) # m) = max (nesting v) (nesting_values m)"

text \<open>
  The first value under a list of keys that is true, and the first that is not \<^verbatim>\<open>None\<close>;
  \<open>JNull\<close> when there is none.
\<close>

fun first_truthy :: "(string \<times> json) list \<Rightarrow> string list \<Rightarrow> json" where
  "first_truthy m [] = JNull"
| "first_truthy m (k # ks) =
     (if truthy (dict_get m k) then dict_get m k else first_truthy m ks)"

fun first_non_null :: "(string \<times> json) list \<Rightarrow> string list \<Rightarrow> json" where
  "first_non_null m [] = JNull"
| "first_non_null m (k # ks) =
     (if dict_get m k \<noteq> JNull then dict_get m k else first_non_null m ks)"


text \<open>
  The levels printing an object takes: one for the object, and for a list or a dict those
  of its deepest member on top.
\<close>

fun repr_depth :: "json \<Rightarrow> nat"
  and repr_depth_items :: "json list \<Rightarrow> nat"
  and repr_depth_pairs :: "(string \<times> json) list \<Rightarrow> nat" where
  "repr_depth (JList xs) = Suc (repr_depth_items xs)"
| "repr_depth (JDict m) = Suc (repr_depth_pairs m)"
| "repr_depth JNull = 1"
| "repr_depth (JBool b) = 1"
| "repr_depth (JInt i) = 1"
| "repr_depth (JFloat f) = 1"
| "repr_depth (JStr s) = 1"
| "repr_depth_items [] = 0"
| "repr_depth_items (x # xs) = max (repr_depth x) (repr_depth_items xs)"
| "repr_depth_pairs [] = 0"
| "repr_depth_pairs ((k, v) # m) = max (repr_depth v) (repr_depth_pairs m)"

fun str_depth :: "json \<Rightarrow> nat" where
  "str_depth (JStr s) = 0"
| "str_depth x = repr_depth x"

text \<open>
  The levels flattening an input takes: one for the call, and on top the most that a member
  takes, a list that is flattened in a nested call or an object that is printed.
\<close>

fun call_depth :: "json \<Rightarrow> nat"
  and call_depth_items :: "json list \<Rightarrow> nat"
  and call_depth_values :: "(string \<times> json) list \<Rightarrow> nat" where
  "call_depth (JList xs) = Suc (call_depth_items xs)"
| "call_depth (JDict m) = Suc (call_depth_values m)"
| "call_depth JNull = 1"
| "call_depth (JBool b) = 1"
| "call_depth (JInt i) = 1"
| "call_depth (JFloat f) = 1"
| "call_depth (JStr s) = 1"
| "call_depth_items [] = 0"
| "call_depth_items (item # rest) =
     max (case item of
            JStr s \<Rightarrow> 0
          | JList ys \<Rightarrow> call_depth item
          | JDict d \<Rightarrow>
              (if truthy (item_name d) then str_depth (item_name d) else str_depth item)
          | JNull \<Rightarrow> 0
          | _ \<Rightarrow> str_depth item)
         (call_depth_items rest)"
| "call_depth_values [] = 0"
| "call_depth_values ((key, v) # rest) =
     max (case v of JList ys \<Rightarrow> call_depth v | _ \<Rightarrow> 0) (call_depth_values rest)"

text \<open>Every int of an object has a text within the digit limit.\<close>

fun ints_ok :: "json \<Rightarrow> bool"
  and ints_ok_items :: "json list \<Rightarrow> bool"
  and ints_ok_pairs :: "(string \<times> json) list \<Rightarrow> bool" where
  "ints_ok (JInt i) = (int_digits i \<le> max_str_digits)"
| "ints_ok (JList xs) = ints_ok_items xs"
| "ints_ok (JDict m) = ints_ok_pairs m"
| "ints_ok JNull = True"
| "ints_ok (JBool b) = True"
| "ints_ok (JFloat f) = True"
| "ints_ok (JStr s) = True"
| "ints_ok_items [] = True"
| "ints_ok_items (x # xs) = (ints_ok x \<and> ints_ok_items xs)"
| "ints_ok_pairs [] = True"
| "ints_ok_pairs ((k, v) # m) = (ints_ok v \<and> ints_ok_pairs m)"

text \<open>Every int that flattening an input prints has a text within the digit limit.\<close>

fun prints_ok :: "json \<Rightarrow> bool"
  and prints_ok_items :: "json list \<Rightarrow> bool"
  and prints_ok_values :: "(string \<times> json) list \<Rightarrow> bool" where
  "prints_ok (JList xs) = prints_ok_items xs"
| "prints_ok (JDict m) = prints_ok_values m"
| "prints_ok JNull = True"
| "prints_ok (JBool b) = True"
| "prints_ok (JInt i) = True"
| "prints_ok (JFloat f) = True"
| "prints_ok (JStr s) = True"
| "prints_ok_items [] = True"
| "prints_ok_items (item # rest) =
     ((case item of
         JStr s \<Rightarrow> True
       | JList ys \<Rightarrow> prints_ok item
       | JDict d \<Rightarrow> (if truthy (item_name d) then ints_ok (item_name d) else ints_ok item)
       | JNull \<Rightarrow> True
       | _ \<Rightarrow> ints_ok item)
      \<and> prints_ok_items rest)"
| "prints_ok_values [] = True"
| "prints_ok_values ((key, v) # rest) =
     ((case v of JList ys \<Rightarrow> prints_ok v | _ \<Rightarrow> True) \<and> prints_ok_values rest)"

text \<open>A text that is neither empty nor the text of \<^verbatim>\<open>None\<close>.\<close>

definition proper_text :: "string \<Rightarrow> bool" where
  "proper_text s = (s \<noteq> [] \<and> s \<noteq> ''None'')"

text \<open>
  The texts that flattening takes over from the input as they are: the payload when it is a
  string, the strings among the items of a sequence that is flattened and among the values
  of a mapping that is flattened, and the name chosen for a mapping in a sequence when that
  name is a string. The text of a float, which the model does not compute, is counted with
  them where a float is printed. Everything else in the result is printed by the code.
\<close>

fun copied_name :: "json \<Rightarrow> string list" where
  "copied_name (JStr s) = [s]"
| "copied_name (JFloat f) = [float_repr f]"
| "copied_name x = []"

fun copied :: "json \<Rightarrow> string list"
  and copied_items :: "json list \<Rightarrow> string list"
  and copied_values :: "(string \<times> json) list \<Rightarrow> string list" where
  "copied (JStr s) = [s]"
| "copied (JList xs) = copied_items xs"
| "copied (JDict m) = copied_values m"
| "copied JNull = []"
| "copied (JBool b) = []"
| "copied (JInt i) = []"
| "copied (JFloat f) = []"
| "copied_items [] = []"
| "copied_items (item # rest) =
     (case item of
        JStr s \<Rightarrow> [s]
      | JList ys \<Rightarrow> copied item
      | JDict d \<Rightarrow> copied_name (first_truthy d name_fields)
      | JFloat f \<Rightarrow> [float_repr f]
      | _ \<Rightarrow> []) @ copied_items rest"
| "copied_values [] = []"
| "copied_values ((key, v) # rest) =
     (case v of JList ys \<Rightarrow> copied v | JStr s \<Rightarrow> [s] | _ \<Rightarrow> []) @ copied_values rest"

text \<open>A breach name as the specification wants it: a str, not empty and not the text of \<^verbatim>\<open>None\<close>.\<close>

fun proper_name :: "json \<Rightarrow> bool" where
  "proper_name (JStr s) = proper_text s"
| "proper_name _ = False"

section \<open>The loops of \<^verbatim>\<open>_flatten_list\<close>\<close>

lemma flatten_items_append:
  "flatten_items (xs @ ys) = flatten_items xs @ flatten_items ys"
  by (induction xs) simp_all

lemma flatten_items_strs: "flatten_items (map JStr ss) = map JStr ss"
  by (induction ss) simp_all

lemma flatten_all_str:
  "list_all is_str (flatten_list x)"
  "list_all is_str (flatten_items xs)"
  "list_all is_str (flatten_values m)"
  by (induction x and xs and m rule: flatten_list_flatten_items_flatten_values.induct)
     (simp_all split: json.split)

lemma flatten_items_fixed: "list_all is_str xs \<Longrightarrow> flatten_items xs = xs"
proof (induction xs)
  case Nil
  show ?case by simp
next
  case (Cons x xs)
  then obtain s where "x = JStr s" by (cases x) simp_all
  with Cons show ?case by simp
qed


text \<open>The examples of the docstring of \<^verbatim>\<open>_flatten_list\<close>.\<close>

lemma docstring_examples:
  "flatten_list (JList [JList [JStr ''Site1'', JStr ''Site2'', JStr ''Site3'']])
     = [JStr ''Site1'', JStr ''Site2'', JStr ''Site3'']"
  "flatten_list (JList [JStr ''Site1'', JList [JStr ''Site2'', JStr ''Site3'']])
     = [JStr ''Site1'', JStr ''Site2'', JStr ''Site3'']"
  by simp_all

section \<open>The name of a record\<close>

lemma item_name_first_truthy: "item_name m = first_truthy m name_fields"
  by (simp add: item_name_def name_fields_def py_or_def)

text \<open>
  Claim C1, as the specification words it: a mapping in a sequence contributes the string
  form of the first of its name fields whose value is not null. The code tests the truth
  of the value, not whether it is null: in \<^verbatim>\<open>[{"breach": "", "name": "X"}]\<close> the field
  \<^verbatim>\<open>breach\<close> is the first that is not null, its string form is empty, and the code appends
  \<^verbatim>\<open>X\<close>.
\<close>

theorem name_non_null_counterexample:
  "flatten_list (JList [JDict [(''breach'', JStr ''''), (''name'', JStr ''X'')]]) = [JStr ''X'']
   \<and> first_non_null [(''breach'', JStr ''''), (''name'', JStr ''X'')] name_fields = JStr ''''"
  by (simp add: item_name_def py_or_def dict_get_def name_fields_def)

text \<open>
  Claim C1, amended: every mapping in a sequence contributes exactly one string, at its
  place in the order of the sequence: the string form of the first of the fields
  \<^verbatim>\<open>breach\<close>, \<^verbatim>\<open>name\<close>, \<^verbatim>\<open>domain\<close>, \<^verbatim>\<open>site\<close>, \<^verbatim>\<open>Name\<close>, \<^verbatim>\<open>Breach\<close>, \<^verbatim>\<open>title\<close> whose
  value is true (not null, not false, not zero, not empty), and the string form of the
  whole mapping when no field has such a value.
\<close>

theorem mapping_item_name:
  "flatten_list (JList (pre @ JDict m # post)) =
     flatten_list (JList pre)
     @ [JStr (if truthy (first_truthy m name_fields)
              then py_str (first_truthy m name_fields)
              else py_str (JDict m))]
     @ flatten_list (JList post)"
  by (simp add: flatten_items_append item_name_first_truthy)

section \<open>The search for the breach data\<close>

lemma probe_keys_first_present:
  "probe_keys m ks = (case first_present m ks of None \<Rightarrow> JNull | Some k \<Rightarrow> dict_get m k)"
  by (induction ks) (auto simp: first_present_def dict_get_def split: option.splits)

lemma first_list_find:
  "first_list m = (case find is_list (map snd m) of Some v \<Rightarrow> v | None \<Rightarrow> JNull)"
  by (induction m rule: first_list.induct) simp_all

lemma probe_keys_null:
  "list_all (\<lambda>k. dict_get m k = JNull) ks \<Longrightarrow> probe_keys m ks = JNull"
  by (induction ks) (auto simp: dict_get_def split: option.splits)

lemma exposed_probe_null:
  "dict_get m ''ExposedBreaches'' = JNull \<Longrightarrow> exposed_probe m = JNull"
  by (auto simp: dict_get_def exposed_probe_def split: option.splits)

text \<open>
  Claim C2, as the specification words it: the search returns the value of the first
  probe key present, whatever its shape, even null. In
  \<^verbatim>\<open>{"breaches": null, "other": ["D"]}\<close> the first key present is \<^verbatim>\<open>breaches\<close>, its value
  is null, and the search goes on and ends with \<^verbatim>\<open>["D"]\<close>.
\<close>

theorem first_key_null_counterexample:
  "first_present [(''breaches'', JNull), (''other'', JList [JStr ''D''])] possible_keys
     = Some ''breaches''
   \<and> map_of [(''breaches'', JNull), (''other'', JList [JStr ''D''])] ''breaches'' = Some JNull
   \<and> breaches_data (JDict [(''breaches'', JNull), (''other'', JList [JStr ''D''])])
     = Inr (JList [JStr ''D''])"
  by (simp add: first_present_def possible_keys_def exposed_probe_def)

text \<open>
  Claim C2, amended: on a mapping, the search takes the first of the probe keys, in their
  order, that the mapping holds. When its value is not null the search returns that value,
  whatever its shape and whatever the other keys hold. When its value is null the search
  goes on as if no key had been found: to the probe under \<^verbatim>\<open>ExposedBreaches\<close>, then to
  the first value that is a sequence.
\<close>

theorem first_key_wins:
  assumes "first_present m possible_keys = Some k" and "map_of m k = Some v"
  shows "breaches_data (JDict m) =
           Inr (if v \<noteq> JNull then v
                else if exposed_probe m \<noteq> JNull then exposed_probe m
                else first_list m)"
  using assms by (simp add: probe_keys_first_present dict_get_def Let_def)

theorem first_key_wins_witness:
  "first_present [(''data'', JStr ''x''), (''Results'', JList [])] possible_keys = Some ''data''
   \<and> map_of [(''data'', JStr ''x''), (''Results'', JList [])] ''data'' = Some (JStr ''x'')
   \<and> breaches_data (JDict [(''data'', JStr ''x''), (''Results'', JList [])]) = Inr (JStr ''x'')"
proof -
  have a: "first_present [(''data'', JStr ''x''), (''Results'', JList [])] possible_keys
             = Some ''data''"
    by (simp add: first_present_def possible_keys_def)
  have b: "map_of [(''data'', JStr ''x''), (''Results'', JList [])] ''data'' = Some (JStr ''x'')"
    by simp
  from first_key_wins [OF a b] a b show ?thesis by simp
qed

text \<open>
  Claim C5: on \<^verbatim>\<open>{"ExposedBreaches": {"breaches_details": ["C"]}}\<close> the specification has
  the search return \<^verbatim>\<open>["C"]\<close>. The code returns the inner mapping itself: the loop over the
  probe keys takes \<^verbatim>\<open>ExposedBreaches\<close> first, and the block that looks under that key for
  \<^verbatim>\<open>breaches_details\<close> is not entered. The breach list agrees on this payload and differs
  as soon as the inner mapping holds another sequence.
\<close>

theorem exposed_mapping_returned_whole:
  "breaches_data (JDict [(''ExposedBreaches'', JDict [(''breaches_details'', JList [JStr ''C''])])])
     = Inr (JDict [(''breaches_details'', JList [JStr ''C''])])
   \<and> breach_list (JDict [(''ExposedBreaches'',
        JDict [(''breaches_details'', JList [JStr ''C'']), (''other'', JList [JStr ''D''])])])
     = [JStr ''C'', JStr ''D'']"
  by (simp add: possible_keys_def breach_list_def)

text \<open>
  Claim C6: when no probe key holds a value (each is missing or null, \<^verbatim>\<open>ExposedBreaches\<close>
  among them), the search returns the first value of the mapping, in its order, that is a
  sequence; when no value is a sequence it returns nothing, and the breach list is empty
  and the count zero.
\<close>

theorem last_resort_first_sequence:
  assumes "list_all (\<lambda>k. dict_get m k = JNull) possible_keys"
  shows "breaches_data (JDict m) =
           Inr (case find is_list (map snd m) of Some v \<Rightarrow> v | None \<Rightarrow> JNull)
         \<and> (find is_list (map snd m) = None \<longrightarrow>
              breach_list (JDict m) = [] \<and> breach_count (JDict m) = 0)"
proof -
  from assms have e: "dict_get m ''ExposedBreaches'' = JNull"
    by (simp add: possible_keys_def)
  have "breaches_data (JDict m) = Inr (first_list m)"
    using assms by (simp add: probe_keys_null exposed_probe_null [OF e])
  then show ?thesis
    by (simp add: first_list_find breach_list_def breach_count_def)
qed

theorem last_resort_first_sequence_witness:
  "list_all (\<lambda>k. dict_get [(''unknownKey'', JList [JStr ''D''])] k = JNull) possible_keys
   \<and> breaches_data (JDict [(''unknownKey'', JList [JStr ''D''])]) = Inr (JList [JStr ''D''])
   \<and> list_all (\<lambda>k. dict_get [(''unknownKey'', JStr ''scalar'')] k = JNull) possible_keys
   \<and> find is_list (map snd [(''unknownKey'', JStr ''scalar'')]) = None
   \<and> breaches_data (JDict [(''unknownKey'', JStr ''scalar'')]) = Inr JNull
   \<and> breach_count (JDict [(''unknownKey'', JStr ''scalar'')]) = 0"
proof -
  have a: "list_all (\<lambda>k. dict_get [(''unknownKey'', JList [JStr ''D''])] k = JNull) possible_keys"
    by (simp add: possible_keys_def dict_get_def)
  have b: "list_all (\<lambda>k. dict_get [(''unknownKey'', JStr ''scalar'')] k = JNull) possible_keys"
    by (simp add: possible_keys_def dict_get_def)
  from last_resort_first_sequence [OF a] last_resort_first_sequence [OF b] a b
  show ?thesis by simp
qed

section \<open>Sequences of strings\<close>

text \<open>
  Claim C3: on a bare sequence of strings \<^verbatim>\<open>_flatten_list\<close> returns the sequence as it
  is: the same strings in the same order, duplicates kept.
\<close>

theorem bare_strings_unchanged:
  "flatten_list (JList (map JStr ss)) = map JStr ss"
  by (simp add: flatten_items_strs)



text \<open>
  Claim C9: \<^verbatim>\<open>_flatten_list\<close> applied to the list it returned gives that list again.
\<close>

theorem flatten_idempotent:
  "flatten_list (JList (flatten_list x)) = flatten_list x"
  by (simp add: flatten_items_fixed flatten_all_str(1))

text \<open>
  Claim C10: whatever the input, every element of the list \<^verbatim>\<open>_flatten_list\<close> returns is a
  str; an input that is neither a str, a list nor a dict (a number, a bool, \<^verbatim>\<open>None\<close>) gives
  the empty list.
\<close>

theorem flatten_elements_are_strings:
  "list_all is_str (flatten_list x)
   \<and> flatten_list (JInt i) = [] \<and> flatten_list (JFloat f) = []
   \<and> flatten_list (JBool b) = [] \<and> flatten_list JNull = []"
  by (simp add: flatten_all_str(1))

section \<open>Every input is flattened\<close>

text \<open>
  A payload that is neither a list nor a dict makes the search raise; the exception is
  caught and the breach list stays empty.
\<close>

lemma scalar_payload_no_breaches:
  "\<not> is_list x \<Longrightarrow> \<not> is_dict x \<Longrightarrow> breach_list x = []"
  by (cases x) (simp_all add: breach_list_def)

lemma end_to_end_examples:
  "breach_list (JDict [(''ExposedBreaches'', JList [JStr ''BreachX'', JStr ''BreachY''])])
     = [JStr ''BreachX'', JStr ''BreachY'']"
  "breach_count (JDict [(''ExposedBreaches'', JList [JStr ''BreachX'', JStr ''BreachY''])]) = 2"
  "breach_count (JDict []) = 0"
  by (simp_all add: breach_count_def breach_list_def possible_keys_def exposed_probe_def)

lemma repr_depth_pos: "0 < repr_depth x"
  by (cases x) simp_all

lemma bounded_repr_exact:
  "case bounded_repr n x of
     Inr r \<Rightarrow> r = py_repr x \<and> repr_depth x \<le> n \<and> ints_ok x
   | Inl e \<Rightarrow> (n < repr_depth x \<or> \<not> ints_ok x) \<and> (e = RecursionError \<or> e = ValueError)"
  "case bounded_repr_items n xs of
     Inr r \<Rightarrow> r = repr_items xs \<and> repr_depth_items xs \<le> n \<and> ints_ok_items xs
   | Inl e \<Rightarrow> (n < repr_depth_items xs \<or> \<not> ints_ok_items xs)
              \<and> (e = RecursionError \<or> e = ValueError)"
  "case bounded_repr_pairs n m of
     Inr r \<Rightarrow> r = repr_pairs m \<and> repr_depth_pairs m \<le> n \<and> ints_ok_pairs m
   | Inl e \<Rightarrow> (n < repr_depth_pairs m \<or> \<not> ints_ok_pairs m)
              \<and> (e = RecursionError \<or> e = ValueError)"
proof (induction n x and n xs and n m
       rule: bounded_repr_bounded_repr_items_bounded_repr_pairs.induct)
  case (1 x)
  show ?case using repr_depth_pos [of x] by simp
qed (auto split: sum.splits)

lemma bounded_str_exact:
  "case bounded_str n x of
     Inr r \<Rightarrow> r = py_str x \<and> str_depth x \<le> n \<and> ints_ok x
   | Inl e \<Rightarrow> (n < str_depth x \<or> \<not> ints_ok x) \<and> (e = RecursionError \<or> e = ValueError)"
  using bounded_repr_exact(1) [of n x] by (cases x) (auto split: sum.splits)

lemma appended_exact:
  "case appended (bounded_str n x) of
     Inr r \<Rightarrow> r = [JStr (py_str x)] \<and> str_depth x \<le> n \<and> ints_ok x
   | Inl e \<Rightarrow> (n < str_depth x \<or> \<not> ints_ok x) \<and> (e = RecursionError \<or> e = ValueError)"
  using bounded_str_exact [of n x] by (cases "bounded_str n x") (auto split: sum.splits)

lemma bounded_flatten_exact:
  "case bounded_flatten n x of
     Inr r \<Rightarrow> r = flatten_list x \<and> call_depth x \<le> n \<and> prints_ok x
   | Inl e \<Rightarrow> (n < call_depth x \<or> \<not> prints_ok x) \<and> (e = RecursionError \<or> e = ValueError)"
  "case bounded_items n xs of
     Inr r \<Rightarrow> r = flatten_items xs \<and> call_depth_items xs \<le> n \<and> prints_ok_items xs
   | Inl e \<Rightarrow> (n < call_depth_items xs \<or> \<not> prints_ok_items xs)
              \<and> (e = RecursionError \<or> e = ValueError)"
  "case bounded_values n m of
     Inr r \<Rightarrow> r = flatten_values m \<and> call_depth_values m \<le> n \<and> prints_ok_values m
   | Inl e \<Rightarrow> (n < call_depth_values m \<or> \<not> prints_ok_values m)
              \<and> (e = RecursionError \<or> e = ValueError)"
proof (induction n x and n xs and n m
       rule: bounded_flatten_bounded_items_bounded_values.induct)
  case (1 x)
  show ?case by (cases x) simp_all
next
  case (10 n item rest)
  show ?case
  proof (cases item)
    case (JList ys)
    with 10 show ?thesis by (auto split: sum.splits)
  next
    case (JDict d)
    with 10(2) appended_exact [of n "item_name d"] appended_exact [of n item]
    show ?thesis by (auto split: sum.splits)
  next
    case JNull
    with 10(2) show ?thesis by (auto split: sum.splits)
  next
    case (JStr s)
    with 10(2) show ?thesis by (auto split: sum.splits)
  next
    case (JBool b)
    with 10(2) appended_exact [of n item] show ?thesis by (auto split: sum.splits)
  next
    case (JInt i)
    with 10(2) appended_exact [of n item] show ?thesis by (auto split: sum.splits)
  next
    case (JFloat f)
    with 10(2) appended_exact [of n item] show ?thesis by (auto split: sum.splits)
  qed
next
  case (12 n key v rest)
  then show ?case by (cases v) (auto split: sum.splits)
qed (auto split: sum.splits)

text \<open>The levels a run takes are at most one more than the nesting depth of the input.\<close>

lemma repr_depth_nesting:
  "repr_depth x \<le> Suc (nesting x)"
  "repr_depth_items xs \<le> Suc (nesting_items xs)"
  "repr_depth_pairs m \<le> Suc (nesting_values m)"
  by (induction x and xs and m rule: repr_depth_repr_depth_items_repr_depth_pairs.induct)
     auto

lemma str_depth_nesting: "str_depth x \<le> Suc (nesting x)"
  using repr_depth_nesting(1) [of x] by (cases x) simp_all

lemma nesting_dict_get: "nesting (dict_get m k) \<le> nesting_values m"
  by (induction m) (auto simp: dict_get_def)

lemma nesting_py_or: "nesting a \<le> d \<Longrightarrow> nesting b \<le> d \<Longrightarrow> nesting (py_or a b) \<le> d"
  by (simp add: py_or_def)

lemma nesting_item_name: "nesting (item_name m) \<le> nesting_values m"
  unfolding item_name_def by (intro nesting_py_or nesting_dict_get) simp

lemma call_depth_nesting:
  "call_depth x \<le> Suc (nesting x)"
  "call_depth_items xs \<le> Suc (nesting_items xs)"
  "call_depth_values m \<le> Suc (nesting_values m)"
proof (induction x and xs and m rule: call_depth_call_depth_items_call_depth_values.induct)
  case (9 item rest)
  show ?case
  proof (cases item)
    case (JDict d)
    have "str_depth (item_name d) \<le> Suc (nesting item)"
      using str_depth_nesting [of "item_name d"] nesting_item_name [of d] JDict by simp
    with 9 JDict str_depth_nesting [of item] show ?thesis by auto
  next
    case (JList ys)
    with 9 show ?thesis by auto
  qed (use 9 in auto)
next
  case (11 key v rest)
  then show ?case by (cases v) auto
qed auto

lemma bounded_enough:
  assumes "nesting x < n" and "prints_ok x"
  shows "bounded_flatten n x = Inr (flatten_list x)"
proof -
  from assms(1) call_depth_nesting(1) [of x] have "call_depth x \<le> n" by simp
  with assms(2) bounded_flatten_exact(1) [of n x] show ?thesis
    by (cases "bounded_flatten n x") auto
qed






section \<open>The names in the result\<close>

lemma digit_char_decimal: "k < 10 \<Longrightarrow> digit_char k \<in> set ''0123456789''"
proof -
  assume "k < 10"
  then have "k \<in> {0, 1, 2, 3, 4, 5, 6, 7, 8, 9}" by auto
  then show ?thesis by (auto simp: digit_char_def)
qed

lemma dec_nat_digits: "dec_nat n \<noteq> [] \<and> set (dec_nat n) \<subseteq> set ''0123456789''"
proof (induction n rule: dec_nat.induct)
  case (1 n)
  show ?case
  proof (cases "n < 10")
    case True
    with digit_char_decimal [of n] show ?thesis by (simp add: dec_nat.simps [of n])
  next
    case False
    have "n mod 10 < 10" by simp
    from digit_char_decimal [OF this] 1 False show ?thesis
      by (simp add: dec_nat.simps [of n])
  qed
qed

lemma dec_nat_proper: "proper_text (dec_nat n)"
proof -
  have "CHR ''N'' \<notin> set (dec_nat n)" using dec_nat_digits [of n] by auto
  then have "dec_nat n \<noteq> ''None''" by auto
  with dec_nat_digits [of n] show ?thesis by (simp add: proper_text_def)
qed

lemma int_repr_proper: "proper_text (int_repr i)"
  using dec_nat_proper [of "nat i"] by (simp add: int_repr_def proper_text_def)

text \<open>What \<^verbatim>\<open>str\<close> prints of an object other than a string or a float is a proper text.\<close>

lemma printed_proper:
  "x \<noteq> JNull \<Longrightarrow> proper_text (py_str x) = list_all proper_text (copied_name x)"
  by (cases x) (simp_all add: int_repr_proper, simp_all add: proper_text_def)

lemma first_truthy_cases: "truthy (first_truthy m ks) \<or> first_truthy m ks = JNull"
  by (induction ks) simp_all

lemma truthy_not_null: "truthy x \<Longrightarrow> x \<noteq> JNull"
  by auto

lemma dict_text_proper: "proper_text (py_str (JDict d))"
  by (simp add: proper_text_def)

lemma flatten_copied:
  "list_all proper_name (flatten_list x) = list_all proper_text (copied x)"
  "list_all proper_name (flatten_items xs) = list_all proper_text (copied_items xs)"
  "list_all proper_name (flatten_values m) = list_all proper_text (copied_values m)"
proof (induction x and xs and m rule: flatten_list_flatten_items_flatten_values.induct)
  case (9 item rest)
  show ?case
  proof (cases item)
    case (JDict d)
    show ?thesis
    proof (cases "truthy (item_name d)")
      case True
      then have "proper_text (py_str (item_name d))
                 = list_all proper_text (copied_name (item_name d))"
        by (intro printed_proper truthy_not_null)
      with True JDict 9 show ?thesis by (simp add: item_name_first_truthy)
    next
      case False
      then have "first_truthy d name_fields = JNull"
        using first_truthy_cases [of d name_fields] by (simp add: item_name_first_truthy)
      with False JDict 9 dict_text_proper [of d] show ?thesis
        by (simp add: item_name_first_truthy)
    qed
  next
    case (JList ys)
    with 9 show ?thesis by simp
  next
    case (JInt i)
    with 9 show ?thesis by (simp add: int_repr_proper)
  next
    case (JBool b)
    with 9 show ?thesis by (simp add: proper_text_def)
  qed (use 9 in simp_all)
next
  case (11 key v rest)
  then show ?case by (cases v) simp_all
qed simp_all

text \<open>
  Claim C8, as the specification words it: no element of the result is the empty string or
  the text of null. A string of the input is copied as it is, so the empty string and the
  string \<^verbatim>\<open>None\<close> in a sequence both reach the result.
\<close>

theorem empty_name_counterexample:
  "flatten_list (JList [JStr '''']) = [JStr '''']
   \<and> flatten_list (JList [JStr ''None'']) = [JStr ''None'']"
  by simp

text \<open>
  Claim C8, amended: every element of the result is a string that is neither empty nor the
  text \<^verbatim>\<open>None\<close> exactly when that holds of every text the code copies from the input as it
  is: the payload when it is a string, the string items of a flattened sequence, the string
  values of a flattened mapping, and the name chosen for a mapping in a sequence when it is a
  string (a float where one is printed counting with the strings). A null in a sequence is
  skipped, a null, empty or zero name field is passed over, fields that are not read do not
  matter, and what the code prints itself (an int, a bool, a list, a mapping) is never empty
  and never the text \<^verbatim>\<open>None\<close>.
\<close>

theorem names_proper_iff_copied:
  "list_all proper_name (flatten_list x) = list_all proper_text (copied x)"
  by (rule flatten_copied(1))

theorem names_proper_iff_copied_witness:
  "list_all proper_text
     (copied (JList [JDict [(''breach'', JStr ''''), (''name'', JStr ''X'')],
                     JDict [(''name'', JStr ''Adobe''), (''logo'', JStr '''')],
                     JNull, JInt (- 7), JDict [(''title'', JInt 0)]]))
   \<and> list_all proper_name
       (flatten_list (JList [JDict [(''breach'', JStr ''''), (''name'', JStr ''X'')],
                             JDict [(''name'', JStr ''Adobe''), (''logo'', JStr '''')],
                             JNull, JInt (- 7), JDict [(''title'', JInt 0)]]))
   \<and> \<not> list_all proper_text (copied (JList [JStr ''ok'', JDict [(''name'', JStr ''None'')]]))
   \<and> \<not> list_all proper_name
         (flatten_list (JList [JStr ''ok'', JDict [(''name'', JStr ''None'')]]))"
proof -
  have a: "list_all proper_text
     (copied (JList [JDict [(''breach'', JStr ''''), (''name'', JStr ''X'')],
                     JDict [(''name'', JStr ''Adobe''), (''logo'', JStr '''')],
                     JNull, JInt (- 7), JDict [(''title'', JInt 0)]]))"
    by (simp add: name_fields_def dict_get_def proper_text_def)
  have b: "\<not> list_all proper_text
               (copied (JList [JStr ''ok'', JDict [(''name'', JStr ''None'')]]))"
    by (simp add: name_fields_def dict_get_def proper_text_def)
  have c: "list_all proper_name
       (flatten_list (JList [JDict [(''breach'', JStr ''''), (''name'', JStr ''X'')],
                             JDict [(''name'', JStr ''Adobe''), (''logo'', JStr '''')],
                             JNull, JInt (- 7), JDict [(''title'', JInt 0)]]))"
    unfolding names_proper_iff_copied by (rule a)
  have d: "\<not> list_all proper_name
         (flatten_list (JList [JStr ''ok'', JDict [(''name'', JStr ''None'')]]))"
    unfolding names_proper_iff_copied by (rule b)
  show ?thesis by (intro conjI a b c d)
qed

end
